theory Spec2Isabelle
  imports Complex_Main "HOL-Library.Word"
begin

section \<open>Outcomes of a member function\<close>

text \<open>
  The header \<^verbatim>\<open>storage_adaptor.hpp\<close> has one \<^verbatim>\<open>throw\<close> (a \<^verbatim>\<open>std::runtime_error\<close>,
  line 80) and three \<^verbatim>\<open>BOOST_ASSERT\<close>s (lines 170, 176, 184). A mutating member
  function is a function from the object to its outcome: it returns and leaves the
  object in a new state, it throws and leaves the object in the state it had at the
  \<^verbatim>\<open>throw\<close>, or an assertion fails and the program stops (the assertions are modelled
  as enabled; with \<^verbatim>\<open>NDEBUG\<close> the source continues into undefined behaviour).
  Sizes and indices are \<^verbatim>\<open>std::size_t\<close>; no arithmetic but \<^verbatim>\<open>++i\<close> below a bound is done
  on them, so they are natural numbers.
\<close>

datatype error = Runtime_error string

datatype 's outcome = Returns 's | Throws error 's | Assertion_failed

section \<open>The message of the capacity error\<close>

text \<open>
  Modelled from the spec: \<^verbatim>\<open>detail::cat\<close> (\<^verbatim>\<open>boost/histogram/detail/cat.hpp\<close>) is not
  among the sources. The spec says of the error only that it carries the requested size
  and the capacity. \<open>cat\<close> is taken to write its arguments one after the other, numbers
  in decimal.
\<close>

datatype cat_arg = Str string | Num nat

definition digit :: "nat \<Rightarrow> char" where
  "digit d = ''0123456789'' ! d"

function show_nat :: "nat \<Rightarrow> string" where
  "show_nat n = (if n < 10 then [digit n] else show_nat (n div 10) @ [digit (n mod 10)])"
  by pat_completeness auto
termination
  by (relation "measure id") auto

fun cat :: "cat_arg list \<Rightarrow> string" where
  "cat [] = []"
| "cat (Str s # as) = s @ cat as"
| "cat (Num n # as) = show_nat n @ cat as"

section \<open>Element accumulator strategy\<close>

text \<open>
  \<^verbatim>\<open>element_adaptor_impl<B, T>\<close> (lines 24-43) is chosen by \<^verbatim>\<open>B = is_callable<T>\<close>. For
  \<^verbatim>\<open>std::true_type\<close> the element is called: \<^verbatim>\<open>t()\<close> and \<^verbatim>\<open>t(u)\<close>; for \<^verbatim>\<open>std::false_type\<close>
  it is \<^verbatim>\<open>++t\<close> and \<^verbatim>\<open>t += u\<close>. The element type's own operations are the arguments of
  the two constructors; each maps the element before to the element after.
\<close>

datatype ('t, 'u) element_adaptor_impl =
    Callable "'t \<Rightarrow> 't" "'t \<Rightarrow> 'u \<Rightarrow> 't"
  | Plain "'t \<Rightarrow> 't" "'t \<Rightarrow> 'u \<Rightarrow> 't"

fun element_adaptor_inc :: "('t, 'u) element_adaptor_impl \<Rightarrow> 't \<Rightarrow> 't" where
  "element_adaptor_inc (Callable call0 call1) t = call0 t"
| "element_adaptor_inc (Plain pre_increment plus_assign) t = pre_increment t"

fun element_adaptor_add :: "('t, 'u) element_adaptor_impl \<Rightarrow> 't \<Rightarrow> 'u \<Rightarrow> 't" where
  "element_adaptor_add (Callable call0 call1) t u = call1 t u"
| "element_adaptor_add (Plain pre_increment plus_assign) t u = plus_assign t u"

text \<open>
  A Plain numeric element type with exact or modular arithmetic: the unbounded integers,
  the machine words (\<open>+\<close> wraps), the rationals. Floating-point elements are not of
  this kind (their \<open>+\<close> rounds).
\<close>

definition numeric :: "('t::semiring_1, 't) element_adaptor_impl" where
  "numeric = Plain (\<lambda>t. t + 1) (\<lambda>t u. t + u)"

section \<open>Backend augmentations\<close>

text \<open>
  \<^verbatim>\<open>value_type()\<close>, the value-initialised element, is written \<open>0\<close> (class \<open>zero\<close>): it is
  zero for every arithmetic type, and the default-constructed object of a class type.
  Elements are compared with HOL's equality.
\<close>

subsection \<open>Growable Dense: \<^verbatim>\<open>vector_augmentation\<close> (lines 51-68)\<close>

text \<open>\<^verbatim>\<open>std::vector::resize(n)\<close> keeps the first \<open>n\<close> elements and appends
  value-initialised ones; \<^verbatim>\<open>std::fill\<close> over the whole range overwrites every element.
  Running out of memory is not modelled.\<close>

definition vector_resize :: "nat \<Rightarrow> 'a::zero list \<Rightarrow> 'a list" where
  "vector_resize n v = take n v @ replicate (n - length v) 0"

definition fill :: "'a list \<Rightarrow> 'a \<Rightarrow> 'a list" where
  "fill v x = map (\<lambda>_. x) v"

definition vector_reset :: "nat \<Rightarrow> 'a::zero list \<Rightarrow> 'a list" where
  "vector_reset n v = fill (vector_resize n v) 0"

text \<open>\<^verbatim>\<open>set\<close> is a template over the type \<^verbatim>\<open>U\<close> of the value it is given (lines 64, 86,
  115); the assignment \<^verbatim>\<open>(*this)[i] = u\<close> converts the value to the element type. \<open>conv\<close>
  is that conversion (the identity when \<^verbatim>\<open>U\<close> is the element type, the truncation of a
  \<^verbatim>\<open>double\<close> to an \<^verbatim>\<open>int\<close>, and so on). The source requires \<open>i < size()\<close> and has no
  check (an index outside the vector is undefined behaviour there; every use below is
  inside).\<close>

definition vector_set :: "('u \<Rightarrow> 'a) \<Rightarrow> nat \<Rightarrow> 'u \<Rightarrow> 'a list \<Rightarrow> 'a list" where
  "vector_set conv i u v = v[i := conv u]"

subsection \<open>Fixed-Capacity Dense: \<^verbatim>\<open>array_augmentation\<close> (lines 70-93)\<close>

text \<open>The \<^verbatim>\<open>std::array<T, N>\<close> base is the buffer of \<open>N\<close> elements; \<^verbatim>\<open>max_size()\<close> is
  \<open>N\<close>. \<open>array_size\<close> is the member \<^verbatim>\<open>size_\<close>.\<close>

record 'a array_augmentation =
  array_buf :: "'a list"
  array_size :: nat

definition max_size :: "'a array_augmentation \<Rightarrow> nat" where
  "max_size a = length (array_buf a)"

text \<open>\<^verbatim>\<open>std::fill_n(first, n, x)\<close> writes \<open>x\<close> to the first \<open>n\<close> positions (\<open>n\<close> within
  the buffer).\<close>

definition fill_n :: "'a list \<Rightarrow> nat \<Rightarrow> 'a \<Rightarrow> 'a list" where
  "fill_n xs n x = replicate n x @ drop n xs"

definition array_reset :: "nat \<Rightarrow> 'a::zero array_augmentation \<Rightarrow> 'a array_augmentation outcome" where
  "array_reset n a =
     (if n > max_size a then
        Throws (Runtime_error
          (cat [Str ''size '', Num n, Str '' exceeds maximum capacity '', Num (max_size a)])) a
      else Returns (a\<lparr>array_buf := fill_n (array_buf a) n 0, array_size := n\<rparr>))"

text \<open>\<^verbatim>\<open>(*this)[i] = u\<close>, unchecked as for the vector; a slot between \<^verbatim>\<open>size_\<close> and the
  capacity is written like any other.\<close>

definition array_set ::
  "('u \<Rightarrow> 'a) \<Rightarrow> nat \<Rightarrow> 'u \<Rightarrow> 'a array_augmentation \<Rightarrow> 'a array_augmentation" where
  "array_set conv i u a = a\<lparr>array_buf := (array_buf a)[i := conv u]\<rparr>"

subsection \<open>Sparse Map: \<^verbatim>\<open>map_augmentation\<close> (lines 95-128)\<close>

text \<open>The map-like base \<^verbatim>\<open>T\<close> (key type \<^verbatim>\<open>std::size_t\<close>) is a finite map from indices to
  elements: \<^verbatim>\<open>find(i)\<close> is the lookup (\<^verbatim>\<open>end()\<close> is \<open>None\<close>), \<^verbatim>\<open>*it\<close> the stored element,
  \<^verbatim>\<open>erase(it)\<close> removes the key, \<^verbatim>\<open>insert(i, u)\<close> adds it, \<^verbatim>\<open>clear()\<close> empties the map.
  \<open>map_size\<close> is the member \<^verbatim>\<open>size_\<close>.\<close>

record 'a map_augmentation =
  map_entries :: "nat \<rightharpoonup> 'a"
  map_size :: nat

definition map_reset :: "nat \<Rightarrow> 'a map_augmentation \<Rightarrow> 'a map_augmentation" where
  "map_reset n m = m\<lparr>map_entries := Map.empty, map_size := n\<rparr>"

definition map_at :: "'a::zero map_augmentation \<Rightarrow> nat \<Rightarrow> 'a" where
  "map_at m i = (let it = map_entries m i in case it of None \<Rightarrow> 0 | Some x \<Rightarrow> x)"

text \<open>The test \<^verbatim>\<open>u == value_type()\<close> of line 118 is made on the value as given, before any
  conversion: the usual arithmetic conversions compare it with zero in the common type,
  which for a value of \<^verbatim>\<open>U\<close> is the test \<open>u = 0\<close> in \<^verbatim>\<open>U\<close>. What \<^verbatim>\<open>*it = u\<close> and
  \<^verbatim>\<open>insert(i, u)\<close> store is the converted value.\<close>

definition map_set ::
  "('u \<Rightarrow> 'a) \<Rightarrow> nat \<Rightarrow> 'u::zero \<Rightarrow> 'a map_augmentation \<Rightarrow> 'a map_augmentation" where
  "map_set conv i u m =
     (let it = map_entries m i in
      if u = 0 then
        (if it \<noteq> None then m\<lparr>map_entries := (map_entries m)(i := None)\<rparr> else m)
      else if it \<noteq> None then m\<lparr>map_entries := (map_entries m)(i \<mapsto> conv u)\<rparr>
      else m\<lparr>map_entries := (map_entries m)(i \<mapsto> conv u)\<rparr>)"

section \<open>Storage adaptor\<close>

text \<open>\<^verbatim>\<open>storage_adaptor<T>\<close> (lines 138-204) derives from the augmentation that
  \<^verbatim>\<open>storage_augmentation<T>\<close> selects for \<^verbatim>\<open>T\<close> (lines 130-134): one of the three, fixed
  by the type.\<close>

datatype 'a storage =
    Vector_storage "'a list"
  | Array_storage "'a array_augmentation"
  | Map_storage "'a map_augmentation"

text \<open>\<^verbatim>\<open>size()\<close>: inherited from the vector, or the member \<^verbatim>\<open>size_\<close> (lines 92, 127).\<close>

fun storage_size :: "'a storage \<Rightarrow> nat" where
  "storage_size (Vector_storage v) = length v"
| "storage_size (Array_storage a) = array_size a"
| "storage_size (Map_storage m) = map_size m"

text \<open>\<^verbatim>\<open>(*this)[i]\<close> read as a value: the container's own \<^verbatim>\<open>operator[]\<close> for the two dense
  backends (unchecked in the source; every read below is inside the buffer), and
  \<^verbatim>\<open>map_augmentation::operator[]\<close> (line 110) for the map.\<close>

fun storage_at :: "'a::zero storage \<Rightarrow> nat \<Rightarrow> 'a" where
  "storage_at (Vector_storage v) i = v ! i"
| "storage_at (Array_storage a) i = array_buf a ! i"
| "storage_at (Map_storage m) i = map_at m i"

fun storage_reset :: "nat \<Rightarrow> 'a::zero storage \<Rightarrow> 'a storage outcome" where
  "storage_reset n (Vector_storage v) = Returns (Vector_storage (vector_reset n v))"
| "storage_reset n (Array_storage a) = map_outcome Array_storage (array_reset n a)"
| "storage_reset n (Map_storage m) = Returns (Map_storage (map_reset n m))"

fun storage_set :: "('u \<Rightarrow> 'a) \<Rightarrow> nat \<Rightarrow> 'u::zero \<Rightarrow> 'a::zero storage \<Rightarrow> 'a storage" where
  "storage_set conv i u (Vector_storage v) = Vector_storage (vector_set conv i u v)"
| "storage_set conv i u (Array_storage a) = Array_storage (array_set conv i u a)"
| "storage_set conv i u (Map_storage m) = Map_storage (map_set conv i u m)"

text \<open>
  The effect on the storage of a mutation \<open>f\<close> applied to the expression \<^verbatim>\<open>(*this)[i]\<close>
  (\<^verbatim>\<open>inc((*this)[i])\<close>, \<^verbatim>\<open>add((*this)[i], u)\<close>, \<^verbatim>\<open>(*this)[i] *= x\<close>). For the two dense
  backends the expression is a reference into the buffer and the element is replaced.
  For the map it is \<^verbatim>\<open>map_augmentation::operator[]\<close>, which is \<^verbatim>\<open>const\<close>, returns
  \<^verbatim>\<open>value_type\<close> by value and hides the base's \<^verbatim>\<open>operator[]\<close>: the mutation acts on a
  temporary and the map is as before. (Standard C++ accepts a temporary there only for
  \<^verbatim>\<open>*=\<close> on an element of class type; binding it to the \<^verbatim>\<open>T&\<close> of lines 29-41 is
  rejected, or accepted as an extension with the same effect.)
\<close>

fun storage_modify :: "nat \<Rightarrow> ('a \<Rightarrow> 'a) \<Rightarrow> 'a::zero storage \<Rightarrow> 'a storage" where
  "storage_modify i f (Vector_storage v) = Vector_storage (v[i := f (v ! i)])"
| "storage_modify i f (Array_storage a) =
     Array_storage (a\<lparr>array_buf := (array_buf a)[i := f (array_buf a ! i)]\<rparr>)"
| "storage_modify i f (Map_storage m) = Map_storage m"

text \<open>A storage-like object \<^verbatim>\<open>U\<close>: anything with \<^verbatim>\<open>size()\<close> and an indexed read.\<close>

record 'u storage_like =
  like_size :: nat
  like_at :: "nat \<Rightarrow> 'u"

definition as_like :: "'a::zero storage \<Rightarrow> 'a storage_like" where
  "as_like s = \<lparr>like_size = storage_size s, like_at = storage_at s\<rparr>"

subsection \<open>\<^verbatim>\<open>operator=\<close> (lines 162-167)\<close>

text \<open>The elements of \<open>rhs\<close> have their own type \<^verbatim>\<open>U::value_type\<close>; \<open>conv\<close> converts them
  to the element type of \<open>self\<close>, inside \<^verbatim>\<open>set\<close>.\<close>

function assign_loop ::
  "('u \<Rightarrow> 'a) \<Rightarrow> 'u::zero storage_like \<Rightarrow> nat \<Rightarrow> nat \<Rightarrow> 'a::zero storage \<Rightarrow> 'a storage" where
  "assign_loop conv rhs i n s =
     (if i < n then assign_loop conv rhs (Suc i) n (storage_set conv i (like_at rhs i) s) else s)"
  by pat_completeness auto
termination
  by (relation "measure (\<lambda>(conv, rhs, i, n, s). n - i)") auto

definition assign ::
  "('u \<Rightarrow> 'a) \<Rightarrow> 'u::zero storage_like \<Rightarrow> 'a::zero storage \<Rightarrow> 'a storage outcome" where
  "assign conv rhs s =
     (case storage_reset (like_size rhs) s of
        Returns s' \<Rightarrow> Returns (assign_loop conv rhs 0 (storage_size s') s')
      | Throws e s' \<Rightarrow> Throws e s'
      | Assertion_failed \<Rightarrow> Assertion_failed)"

subsection \<open>\<^verbatim>\<open>operator()\<close> (lines 169-178)\<close>

definition increment ::
  "('a, 'u) element_adaptor_impl \<Rightarrow> nat \<Rightarrow> 'a::zero storage \<Rightarrow> 'a storage outcome" where
  "increment E i s =
     (if i < storage_size s then Returns (storage_modify i (element_adaptor_inc E) s)
      else Assertion_failed)"

definition add ::
  "('a, 'u) element_adaptor_impl \<Rightarrow> nat \<Rightarrow> 'u \<Rightarrow> 'a::zero storage \<Rightarrow> 'a storage outcome" where
  "add E i u s =
     (if i < storage_size s then Returns (storage_modify i (\<lambda>t. element_adaptor_add E t u) s)
      else Assertion_failed)"

subsection \<open>\<^verbatim>\<open>operator+=\<close> (lines 180-187)\<close>

function plus_loop ::
  "('a, 'u) element_adaptor_impl \<Rightarrow> 'u storage_like \<Rightarrow> nat \<Rightarrow> nat \<Rightarrow> 'a::zero storage \<Rightarrow> 'a storage" where
  "plus_loop E u i n s =
     (if i < n then
        plus_loop E u (Suc i) n (storage_modify i (\<lambda>t. element_adaptor_add E t (like_at u i)) s)
      else s)"
  by pat_completeness auto
termination
  by (relation "measure (\<lambda>(E, u, i, n, s). n - i)") auto

definition plus_assign ::
  "('a, 'u) element_adaptor_impl \<Rightarrow> 'u storage_like \<Rightarrow> 'a::zero storage \<Rightarrow> 'a storage outcome" where
  "plus_assign E u s =
     (let n = storage_size s in
      if n = like_size u then Returns (plus_loop E u 0 n s) else Assertion_failed)"

subsection \<open>\<^verbatim>\<open>operator*=\<close> and \<^verbatim>\<open>operator/=\<close> (lines 189-194)\<close>

text \<open>\<open>mul t x\<close> is the element after \<^verbatim>\<open>t *= x\<close>, the element type's own compound
  multiplication by the \<^verbatim>\<open>double\<close> \<open>x\<close>. The scalars are any type with \<open>1\<close> and \<open>/\<close>;
  nothing below depends on how they round.\<close>

function times_loop ::
  "('a \<Rightarrow> 'x \<Rightarrow> 'a) \<Rightarrow> 'x \<Rightarrow> nat \<Rightarrow> nat \<Rightarrow> 'a::zero storage \<Rightarrow> 'a storage" where
  "times_loop mul x i n s =
     (if i < n then times_loop mul x (Suc i) n (storage_modify i (\<lambda>t. mul t x) s) else s)"
  by pat_completeness auto
termination
  by (relation "measure (\<lambda>(mul, x, i, n, s). n - i)") auto

definition times_assign :: "('a \<Rightarrow> 'x \<Rightarrow> 'a) \<Rightarrow> 'x \<Rightarrow> 'a::zero storage \<Rightarrow> 'a storage" where
  "times_assign mul x s = times_loop mul x 0 (storage_size s) s"

definition divide_assign ::
  "('a \<Rightarrow> 'x \<Rightarrow> 'a) \<Rightarrow> 'x::{one,inverse} \<Rightarrow> 'a::zero storage \<Rightarrow> 'a storage" where
  "divide_assign mul x s = times_assign mul (1 / x) s"

subsection \<open>\<^verbatim>\<open>operator==\<close> (lines 196-203)\<close>

function equals_loop :: "'a::zero storage \<Rightarrow> 'a storage_like \<Rightarrow> nat \<Rightarrow> nat \<Rightarrow> bool" where
  "equals_loop s u i n =
     (if i < n then (if storage_at s i \<noteq> like_at u i then False else equals_loop s u (Suc i) n)
      else True)"
  by pat_completeness auto
termination
  by (relation "measure (\<lambda>(s, u, i, n). n - i)") auto

definition equals :: "'a::zero storage \<Rightarrow> 'a storage_like \<Rightarrow> bool" where
  "equals s u =
     (let n = storage_size s in
      if n \<noteq> like_size u then False else equals_loop s u 0 n)"

section \<open>Bin interval view (\<^verbatim>\<open>axis/interval_view.hpp\<close>)\<close>

text \<open>
  Of the axis only \<^verbatim>\<open>value\<close> is used. Its argument is a \<^verbatim>\<open>double\<close>; the three positions
  \<^verbatim>\<open>idx_\<close>, \<^verbatim>\<open>idx_ + 1\<close> and \<^verbatim>\<open>idx_ + 0.5\<close> are integers and half-integers of magnitude at
  most \<open>2^31\<close>, which a \<^verbatim>\<open>double\<close> holds exactly, so they are written as reals. \<^verbatim>\<open>idx_\<close> is
  an \<^verbatim>\<open>int\<close>: a 32-bit word read as signed; \<^verbatim>\<open>idx_ + 1\<close> is the addition of \<^verbatim>\<open>int\<close>s
  (it wraps here at the largest \<^verbatim>\<open>int\<close>, where the source is undefined).
\<close>

record 'v axis =
  axis_value :: "real \<Rightarrow> 'v"

record 'v interval_view =
  view_axis :: "'v axis"
  view_idx :: "32 word"

definition lower :: "'v interval_view \<Rightarrow> 'v" where
  "lower iv = axis_value (view_axis iv) (real_of_int (sint (view_idx iv)))"

definition upper :: "'v interval_view \<Rightarrow> 'v" where
  "upper iv = axis_value (view_axis iv) (real_of_int (sint (view_idx iv + 1)))"

definition center :: "'v interval_view \<Rightarrow> 'v" where
  "center iv = axis_value (view_axis iv) (real_of_int (sint (view_idx iv)) + 0.5)"

definition width :: "'v::minus interval_view \<Rightarrow> 'v" where
  "width iv = upper iv - lower iv"

section \<open>Scenarios and predicates of the properties\<close>

text \<open>The slots a dense backend can address without leaving its buffer; a map has no
  such bound.\<close>

fun addressable :: "'a storage \<Rightarrow> nat \<Rightarrow> bool" where
  "addressable (Vector_storage v) i = (i < length v)"
| "addressable (Array_storage a) i = (i < max_size a)"
| "addressable (Map_storage m) i = True"

text \<open>The logical size of a fixed-capacity storage lies within its buffer. The
  constructors (\<^verbatim>\<open>size_ = 0\<close>) and \<open>array_reset\<close> establish it, nothing else writes
  \<^verbatim>\<open>size_\<close>.\<close>

fun well_formed :: "'a storage \<Rightarrow> bool" where
  "well_formed (Array_storage a) = (array_size a \<le> max_size a)"
| "well_formed s = True"

text \<open>A caller applying \<^verbatim>\<open>s(i)\<close> \<open>k\<close> times.\<close>

fun increment_times ::
  "('a, 'u) element_adaptor_impl \<Rightarrow> nat \<Rightarrow> nat \<Rightarrow> 'a::zero storage \<Rightarrow> 'a storage outcome" where
  "increment_times E 0 i s = Returns s"
| "increment_times E (Suc k) i s =
     (case increment E i s of
        Returns s' \<Rightarrow> increment_times E k i s'
      | Throws e s' \<Rightarrow> Throws e s'
      | Assertion_failed \<Rightarrow> Assertion_failed)"

text \<open>A caller applying a sequence of the public operations to one storage, up to the
  first that does not return.\<close>

datatype ('v, 'u, 'x) operation =
    Op_reset nat
  | Op_set nat 'v
  | Op_increment nat
  | Op_add nat 'u
  | Op_plus_assign "'u storage_like"
  | Op_times_assign 'x
  | Op_divide_assign 'x
  | Op_assign "'v storage_like"

fun apply_operation ::
  "('a, 'u) element_adaptor_impl \<Rightarrow> ('a \<Rightarrow> 'x \<Rightarrow> 'a) \<Rightarrow> ('v \<Rightarrow> 'a) \<Rightarrow>
   ('v::zero, 'u, 'x::{one,inverse}) operation \<Rightarrow> 'a::zero storage \<Rightarrow> 'a storage outcome" where
  "apply_operation E mul conv (Op_reset n) s = storage_reset n s"
| "apply_operation E mul conv (Op_set i u) s = Returns (storage_set conv i u s)"
| "apply_operation E mul conv (Op_increment i) s = increment E i s"
| "apply_operation E mul conv (Op_add i u) s = add E i u s"
| "apply_operation E mul conv (Op_plus_assign u) s = plus_assign E u s"
| "apply_operation E mul conv (Op_times_assign x) s = Returns (times_assign mul x s)"
| "apply_operation E mul conv (Op_divide_assign x) s = Returns (divide_assign mul x s)"
| "apply_operation E mul conv (Op_assign rhs) s = assign conv rhs s"

fun run ::
  "('a, 'u) element_adaptor_impl \<Rightarrow> ('a \<Rightarrow> 'x \<Rightarrow> 'a) \<Rightarrow> ('v \<Rightarrow> 'a) \<Rightarrow>
   ('v::zero, 'u, 'x::{one,inverse}) operation list \<Rightarrow> 'a::zero storage \<Rightarrow> 'a storage outcome" where
  "run E mul conv [] s = Returns s"
| "run E mul conv (op # ops) s =
     (case apply_operation E mul conv op s of
        Returns s' \<Rightarrow> run E mul conv ops s'
      | Throws e s' \<Rightarrow> Throws e s'
      | Assertion_failed \<Rightarrow> Assertion_failed)"

text \<open>The conversion of a \<^verbatim>\<open>double\<close> to an \<^verbatim>\<open>int\<close> drops the fraction (the doubles used
  below are rationals a \<^verbatim>\<open>double\<close> holds exactly).\<close>

definition truncate :: "rat \<Rightarrow> int" where
  "truncate x = (if 0 \<le> x then \<lfloor>x\<rfloor> else \<lceil>x\<rceil>)"

text \<open>
  A Plain element of type \<^verbatim>\<open>float\<close>, on the non-negative whole numbers: a sum is rounded
  to 24 significant bits, to the nearest and on a tie to the even significand, as
  IEEE 754 single precision does. \<open>excess_bits n\<close> is the number of low bits that a
  24-bit significand cannot hold.
\<close>

function excess_bits :: "nat \<Rightarrow> nat" where
  "excess_bits n = (if n < 2 ^ 24 then 0 else Suc (excess_bits (n div 2)))"
  by pat_completeness auto
termination
  by (relation "measure id") auto

definition round_float :: "nat \<Rightarrow> nat" where
  "round_float n =
     (let e = excess_bits n; q = n div 2 ^ e; r = n mod 2 ^ e in
      if 2 * r < 2 ^ e \<or> (2 * r = 2 ^ e \<and> even q) then q * 2 ^ e else (q + 1) * 2 ^ e)"

definition float_element :: "(nat, nat) element_adaptor_impl" where
  "float_element = Plain (\<lambda>t. round_float (t + 1)) (\<lambda>t u. round_float (t + u))"

text \<open>The two dense backends, whose \<^verbatim>\<open>operator[]\<close> yields a reference.\<close>

fun dense :: "'a storage \<Rightarrow> bool" where
  "dense (Map_storage m) = False"
| "dense s = True"

text \<open>A sparse map storage whose materialised entries equal to the default value, if it has
  any, are at indices of \<open>Z\<close>.\<close>

fun defaults_within :: "nat set \<Rightarrow> 'a::zero storage \<Rightarrow> bool" where
  "defaults_within Z (Map_storage m) = (\<forall>i. map_entries m i = Some 0 \<longrightarrow> i \<in> Z)"
| "defaults_within Z s = False"

text \<open>The recursive equations of the loops and of the message are unfolded by hand.\<close>

declare show_nat.simps [simp del] cat.simps [simp del] assign_loop.simps [simp del]
  excess_bits.simps [simp del]
  plus_loop.simps [simp del] times_loop.simps [simp del] equals_loop.simps [simp del]

section \<open>Resetting a backend\<close>

lemma vector_reset_eq: "vector_reset n v = replicate n 0"
  by (simp add: vector_reset_def fill_def vector_resize_def map_replicate_const min_def)

lemma fill_n_length: "n \<le> length xs \<Longrightarrow> length (fill_n xs n x) = length xs"
  by (simp add: fill_n_def)

lemma fill_n_nth: "i < n \<Longrightarrow> fill_n xs n x ! i = x"
  by (simp add: fill_n_def nth_append)

lemma map_reset_at: "map_at (map_reset n m) i = 0"
  by (simp add: map_at_def map_reset_def)

lemma reset_returns:
  assumes "\<forall>a. s = Array_storage a \<longrightarrow> n \<le> max_size a"
  shows "\<exists>s'. storage_reset n s = Returns s' \<and> storage_size s' = n \<and>
           (\<forall>i<n. addressable s' i \<and> storage_at s' i = 0)"
proof (cases s)
  case (Vector_storage v)
  then show ?thesis by (simp add: vector_reset_eq)
next
  case (Array_storage a)
  with assms have "n \<le> max_size a" by simp
  with Array_storage show ?thesis
    by (simp add: array_reset_def fill_n_nth max_size_def fill_n_length)
next
  case (Map_storage m)
  then show ?thesis by (simp add: map_reset_at) (simp add: map_reset_def)
qed

lemma reset_dense: "storage_reset n s = Returns s' \<Longrightarrow> dense s' = dense s"
  by (cases s) (auto simp: array_reset_def split: if_splits)

lemma reset_well_formed: "storage_reset n s = Returns s' \<Longrightarrow> well_formed s'"
  by (cases s) (auto simp: array_reset_def max_size_def fill_n_length split: if_splits)

text \<open>
  C1. The spec's \<open>resize(n)\<close> is the member \<^verbatim>\<open>reset(n)\<close> of the augmentation. On a
  growable dense storage, on a fixed-capacity dense storage whose capacity is at least
  \<open>n\<close>, and on a sparse map storage, it returns, the size is \<open>n\<close> afterwards, and every
  index below \<open>n\<close> reads as the default value.
\<close>

theorem reset_size_default:
  assumes "\<forall>a. s = Array_storage a \<longrightarrow> n \<le> max_size a"
  shows "\<exists>s'. storage_reset n s = Returns s' \<and> storage_size s' = n \<and>
           (\<forall>i<n. storage_at s' i = 0)"
  using reset_returns [OF assms] by blast

theorem reset_size_default_witness:
  "\<exists>s'. storage_reset 3 (Array_storage \<lparr>array_buf = [5, 6, 7, 8 :: int], array_size = 4\<rparr>)
          = Returns s' \<and>
        storage_size s' = 3 \<and> storage_at s' 0 = 0 \<and> storage_at s' 1 = 0 \<and> storage_at s' 2 = 0"
proof -
  let ?s = "Array_storage \<lparr>array_buf = [5, 6, 7, 8 :: int], array_size = 4\<rparr>"
  have h: "\<forall>a. ?s = Array_storage a \<longrightarrow> 3 \<le> max_size a"
    by (auto simp: max_size_def)
  from reset_size_default [OF h] obtain s' where
    r: "storage_reset 3 ?s = Returns s'" and n: "storage_size s' = 3" and
    z: "\<forall>i<3. storage_at s' i = 0"
    by blast
  from z have "storage_at s' 0 = 0" "storage_at s' 1 = 0" "storage_at s' 2 = 0"
    by simp_all
  with r n show ?thesis by blast
qed

subsection \<open>The capacity message determines the two numbers it is made of\<close>

lemma digit_inj: "d < 10 \<Longrightarrow> e < 10 \<Longrightarrow> digit d = digit e \<Longrightarrow> d = e"
proof -
  assume d: "d < 10" and e: "e < 10" and eq: "digit d = digit e"
  have "distinct ''0123456789''" by simp
  moreover have "d < length ''0123456789''" "e < length ''0123456789''" using d e by simp_all
  ultimately show "d = e" using eq unfolding digit_def by (simp only: nth_eq_iff_index_eq)
qed

lemma digit_not_space: "d < 10 \<Longrightarrow> digit d \<noteq> CHR '' ''"
proof -
  assume "d < 10"
  then have "d < length ''0123456789''" by simp
  then have "''0123456789'' ! d \<in> set ''0123456789''" by (rule nth_mem)
  then have "digit d \<in> set ''0123456789''" unfolding digit_def .
  moreover have "CHR '' '' \<notin> set ''0123456789''" by simp
  ultimately show ?thesis by metis
qed

lemma show_nat_no_space: "CHR '' '' \<notin> set (show_nat n)"
proof (induction n rule: show_nat.induct)
  case (1 n)
  show ?case
  proof (cases "n < 10")
    case True
    then show ?thesis
      by (simp add: show_nat.simps [of n] digit_not_space [symmetric])
  next
    case False
    have "n mod 10 < 10" by simp
    with False "1.IH" show ?thesis
      by (simp add: show_nat.simps [of n] digit_not_space [symmetric])
  qed
qed

lemma show_nat_length: "length (show_nat n) = 1 \<longleftrightarrow> n < 10"
proof (cases "n < 10")
  case True
  then show ?thesis by (simp add: show_nat.simps [of n])
next
  case False
  have "show_nat (n div 10) \<noteq> []"
    by (cases "n div 10 < 10") (simp_all add: show_nat.simps [of "n div 10"])
  with False show ?thesis by (simp add: show_nat.simps [of n])
qed

lemma show_nat_inj: "show_nat n = show_nat m \<Longrightarrow> n = m"
proof (induction n arbitrary: m rule: show_nat.induct)
  case (1 n)
  show ?case
  proof (cases "n < 10")
    case True
    with "1.prems" show_nat_length [of n] show_nat_length [of m] have m: "m < 10" by simp
    with True "1.prems" show ?thesis
      by (simp add: show_nat.simps [of n] show_nat.simps [of m] digit_inj)
  next
    case False
    with "1.prems" show_nat_length [of n] show_nat_length [of m] have m: "\<not> m < 10" by simp
    with False "1.prems" have
      a: "show_nat (n div 10) = show_nat (m div 10)" and b: "digit (n mod 10) = digit (m mod 10)"
      by (simp_all add: show_nat.simps [of n] show_nat.simps [of m])
    from "1.IH" [OF False a] have "n div 10 = m div 10" .
    moreover from b have "n mod 10 = m mod 10" by (intro digit_inj) simp_all
    ultimately show ?thesis by (metis div_mult_mod_eq)
  qed
qed

lemma split_at_first:
  "x \<notin> set xs \<Longrightarrow> x \<notin> set xs' \<Longrightarrow> xs @ x # ys = xs' @ x # ys' \<Longrightarrow> xs = xs' \<and> ys = ys'"
proof (induction xs arbitrary: xs')
  case Nil
  then show ?case by (cases xs') auto
next
  case (Cons a xs)
  then show ?case by (cases xs') auto
qed

lemma capacity_message_inj:
  assumes "cat [Str ''size '', Num n', Str '' exceeds maximum capacity '', Num c'] =
           cat [Str ''size '', Num n, Str '' exceeds maximum capacity '', Num c]"
  shows "n' = n \<and> c' = c"
proof -
  from assms have
    "show_nat n' @ CHR '' '' # (''exceeds maximum capacity '' @ show_nat c') =
     show_nat n @ CHR '' '' # (''exceeds maximum capacity '' @ show_nat c)"
    by (simp add: cat.simps)
  then have "show_nat n' = show_nat n \<and>
      ''exceeds maximum capacity '' @ show_nat c' = ''exceeds maximum capacity '' @ show_nat c"
    by (rule split_at_first [OF show_nat_no_space show_nat_no_space])
  then show ?thesis by (auto dest: show_nat_inj)
qed

text \<open>
  C2. On a fixed-capacity dense storage of capacity \<open>C = max_size a\<close>, \<open>reset n\<close> returns
  with size \<open>n\<close> when \<open>n \<le> C\<close>. When \<open>n > C\<close> it throws the runtime error whose message
  is made of the requested size \<open>n\<close> and the capacity \<open>C\<close> (and is the message of no
  other pair of numbers), and the size after the throw is the size before.
\<close>

theorem fixed_capacity_reset:
  "(n \<le> max_size a \<longrightarrow>
      (\<exists>s'. storage_reset n (Array_storage a) = Returns s' \<and> storage_size s' = n)) \<and>
   (max_size a < n \<longrightarrow>
      (\<exists>s'. storage_reset n (Array_storage a) =
          Throws (Runtime_error
            (cat [Str ''size '', Num n, Str '' exceeds maximum capacity '', Num (max_size a)])) s' \<and>
        storage_size s' = storage_size (Array_storage a)) \<and>
      (\<forall>n' c'. cat [Str ''size '', Num n', Str '' exceeds maximum capacity '', Num c'] =
                cat [Str ''size '', Num n, Str '' exceeds maximum capacity '', Num (max_size a)]
         \<longrightarrow> n' = n \<and> c' = max_size a))"
proof (intro conjI impI allI)
  assume "n \<le> max_size a"
  then show "\<exists>s'. storage_reset n (Array_storage a) = Returns s' \<and> storage_size s' = n"
    by (simp add: array_reset_def)
next
  assume "max_size a < n"
  then show "\<exists>s'. storage_reset n (Array_storage a) =
          Throws (Runtime_error
            (cat [Str ''size '', Num n, Str '' exceeds maximum capacity '', Num (max_size a)])) s' \<and>
        storage_size s' = storage_size (Array_storage a)"
    by (simp add: array_reset_def)
next
  fix n' c'
  assume "cat [Str ''size '', Num n', Str '' exceeds maximum capacity '', Num c'] =
          cat [Str ''size '', Num n, Str '' exceeds maximum capacity '', Num (max_size a)]"
  then show "n' = n" and "c' = max_size a"
    by (simp_all add: capacity_message_inj)
qed

theorem fixed_capacity_reset_witness:
  "(\<exists>s'. storage_reset 4 (Array_storage \<lparr>array_buf = [5, 6, 7, 8 :: int], array_size = 2\<rparr>)
          = Returns s' \<and> storage_size s' = 4) \<and>
   (\<exists>s'. storage_reset 5 (Array_storage \<lparr>array_buf = [5, 6, 7, 8 :: int], array_size = 2\<rparr>)
          = Throws (Runtime_error ''size 5 exceeds maximum capacity 4'') s' \<and>
        storage_size s' = 2)"
proof -
  let ?a = "\<lparr>array_buf = [5, 6, 7, 8 :: int], array_size = 2\<rparr>"
  have c: "max_size ?a = 4" by (simp add: max_size_def)
  have m: "cat [Str ''size '', Num 5, Str '' exceeds maximum capacity '', Num 4]
             = ''size 5 exceeds maximum capacity 4''"
    by (simp add: cat.simps show_nat.simps digit_def)
  have lo: "4 \<le> max_size ?a" and hi: "max_size ?a < 5" by (simp_all add: c)
  note within = fixed_capacity_reset [where n = 4 and a = ?a, THEN conjunct1, THEN mp, OF lo]
  note beyond = fixed_capacity_reset [where n = 5 and a = ?a, THEN conjunct2, THEN mp, OF hi,
      THEN conjunct1]
  from within
  have "\<exists>s'. storage_reset 4 (Array_storage ?a) = Returns s' \<and> storage_size s' = 4" .
  moreover from beyond
  have "\<exists>s'. storage_reset 5 (Array_storage ?a)
          = Throws (Runtime_error ''size 5 exceeds maximum capacity 4'') s' \<and>
        storage_size s' = 2"
    by (simp only: c m storage_size.simps array_augmentation.simps)
  ultimately show ?thesis by blast
qed

text \<open>
  C9. When \<open>array_reset n\<close> fails because \<open>n\<close> exceeds the capacity, the \<^verbatim>\<open>throw\<close> comes
  before any write: the object after the throw is the object before, buffer and
  logical size alike.
\<close>

theorem array_reset_failure_atomic:
  "max_size a < n \<Longrightarrow>
   \<exists>e a'. array_reset n a = Throws e a' \<and> a' = a \<and>
     array_buf a' = array_buf a \<and> array_size a' = array_size a"
  by (simp add: array_reset_def)

theorem array_reset_failure_atomic_witness:
  "\<exists>e a'. array_reset 5 \<lparr>array_buf = [5, 6, 7, 8 :: int], array_size = 2\<rparr> = Throws e a' \<and>
     array_buf a' = [5, 6, 7, 8] \<and> array_size a' = 2"
proof -
  let ?a = "\<lparr>array_buf = [5, 6, 7, 8 :: int], array_size = 2\<rparr>"
  have c: "max_size ?a < 5" by (simp add: max_size_def)
  from array_reset_failure_atomic [OF c] show ?thesis by auto
qed

section \<open>Assignment from a storage-like object\<close>

lemma map_set_at:
  "map_at (map_set conv i u m) j =
     (if j = i then (if u = 0 then 0 else conv u) else map_at m j)"
  by (auto simp: map_at_def map_set_def Let_def split: option.splits)

lemma map_set_size: "map_size (map_set conv i u m) = map_size m"
  by (simp add: map_set_def Let_def)

lemma storage_set_size: "storage_size (storage_set conv i u s) = storage_size s"
  by (cases s) (simp_all add: vector_set_def array_set_def map_set_size)

lemma storage_set_addressable: "addressable (storage_set conv i u s) j = addressable s j"
  by (cases s) (simp_all add: vector_set_def array_set_def max_size_def)

lemma storage_set_dense: "dense (storage_set conv i u s) = dense s"
  by (cases s) simp_all

lemma storage_set_at:
  "addressable s i \<Longrightarrow>
   storage_at (storage_set conv i u s) j =
     (if j = i then (if \<not> dense s \<and> u = 0 then 0 else conv u) else storage_at s j)"
  by (cases s) (simp_all add: vector_set_def array_set_def max_size_def map_set_at)

lemma storage_set_well_formed: "well_formed (storage_set conv i u s) = well_formed s"
  by (cases s) (simp_all add: array_set_def max_size_def)

lemma assign_loop_size: "storage_size (assign_loop conv rhs i n s) = storage_size s"
proof (induction conv rhs i n s rule: assign_loop.induct)
  case (1 conv rhs i n s)
  then show ?case
    by (cases "i < n") (simp_all add: assign_loop.simps [of conv rhs i n s] storage_set_size)
qed

lemma assign_loop_at:
  "(\<forall>j<n. addressable s j) \<Longrightarrow>
   storage_at (assign_loop conv rhs i n s) j =
     (if i \<le> j \<and> j < n
      then (if \<not> dense s \<and> like_at rhs j = 0 then 0 else conv (like_at rhs j))
      else storage_at s j)"
proof (induction conv rhs i n s rule: assign_loop.induct)
  case (1 conv rhs i n s)
  show ?case
  proof (cases "i < n")
    case True
    let ?s = "storage_set conv i (like_at rhs i) s"
    from "1.prems" have a: "\<forall>j<n. addressable ?s j"
      by (simp add: storage_set_addressable)
    from "1.prems" True have b: "addressable s i" by simp
    have "storage_at (assign_loop conv rhs i n s) j =
        storage_at (assign_loop conv rhs (Suc i) n ?s) j"
      using True by (simp add: assign_loop.simps [of conv rhs i n s])
    also have "\<dots> = (if Suc i \<le> j \<and> j < n
        then (if \<not> dense ?s \<and> like_at rhs j = 0 then 0 else conv (like_at rhs j))
        else storage_at ?s j)"
      using "1.IH" [OF True a] .
    also have "\<dots> = (if i \<le> j \<and> j < n
        then (if \<not> dense s \<and> like_at rhs j = 0 then 0 else conv (like_at rhs j))
        else storage_at s j)"
      using True b by (auto simp: storage_set_at storage_set_dense)
    finally show ?thesis .
  next
    case False
    then show ?thesis by (auto simp add: assign_loop.simps [of conv rhs i n s])
  qed
qed

text \<open>
  C4. Assigning a storage-like \<open>rhs\<close> to \<open>self\<close> (\<^verbatim>\<open>operator=\<close>, which the converting
  constructor of lines 157-160 calls) first resets \<open>self\<close> to the size of \<open>rhs\<close>, every
  element default, and then copies \<open>rhs[i]\<close> to index \<open>i\<close> for every \<open>i\<close> below that
  size: afterwards \<open>self\<close> has the size of \<open>rhs\<close> and reads at every index as \<open>rhs\<close>
  does, converted to the element type of \<open>self\<close> (a sparse map reads the default value
  where \<open>rhs[i]\<close> compares equal to it). When \<open>self\<close> is fixed-capacity dense and the size
  of \<open>rhs\<close> exceeds its capacity, the assignment throws the capacity error (and \<open>self\<close>
  is as before).
\<close>

theorem assign_resets_then_copies:
  "((\<forall>a. self = Array_storage a \<longrightarrow> like_size rhs \<le> max_size a) \<longrightarrow>
      (\<exists>s1 s'. storage_reset (like_size rhs) self = Returns s1 \<and>
         storage_size s1 = like_size rhs \<and>
         (\<forall>i<like_size rhs. storage_at s1 i = 0) \<and>
         assign conv rhs self = Returns s' \<and>
         s' = assign_loop conv rhs 0 (like_size rhs) s1 \<and>
         storage_size s' = like_size rhs \<and>
         (\<forall>i<like_size rhs. storage_at s' i =
            (if \<not> dense self \<and> like_at rhs i = 0 then 0 else conv (like_at rhs i))) \<and>
         (conv 0 = 0 \<longrightarrow> (\<forall>i<like_size rhs. storage_at s' i = conv (like_at rhs i))))) \<and>
   (\<forall>a. self = Array_storage a \<and> max_size a < like_size rhs \<longrightarrow>
      assign conv rhs self =
        Throws (Runtime_error
          (cat [Str ''size '', Num (like_size rhs), Str '' exceeds maximum capacity '',
                Num (max_size a)])) self)"
proof (intro conjI impI allI)
  assume h: "\<forall>a. self = Array_storage a \<longrightarrow> like_size rhs \<le> max_size a"
  from reset_returns [OF h] obtain s1 where
    r: "storage_reset (like_size rhs) self = Returns s1" and
    n: "storage_size s1 = like_size rhs" and
    z: "\<forall>i<like_size rhs. addressable s1 i \<and> storage_at s1 i = 0"
    by blast
  from reset_dense [OF r] have d: "dense s1 = dense self" .
  let ?s' = "assign_loop conv rhs 0 (like_size rhs) s1"
  have a: "assign conv rhs self = Returns ?s'"
    by (simp add: assign_def r n)
  have c: "\<forall>i<like_size rhs. storage_at ?s' i =
      (if \<not> dense self \<and> like_at rhs i = 0 then 0 else conv (like_at rhs i))"
    using z by (simp add: assign_loop_at d)
  then have e: "conv 0 = 0 \<longrightarrow> (\<forall>i<like_size rhs. storage_at ?s' i = conv (like_at rhs i))"
    by auto
  show "\<exists>s1 s'. storage_reset (like_size rhs) self = Returns s1 \<and>
         storage_size s1 = like_size rhs \<and>
         (\<forall>i<like_size rhs. storage_at s1 i = 0) \<and>
         assign conv rhs self = Returns s' \<and>
         s' = assign_loop conv rhs 0 (like_size rhs) s1 \<and>
         storage_size s' = like_size rhs \<and>
         (\<forall>i<like_size rhs. storage_at s' i =
            (if \<not> dense self \<and> like_at rhs i = 0 then 0 else conv (like_at rhs i))) \<and>
         (conv 0 = 0 \<longrightarrow> (\<forall>i<like_size rhs. storage_at s' i = conv (like_at rhs i)))"
    using r n z a c e by (simp add: assign_loop_size)
next
  fix a
  assume "self = Array_storage a \<and> max_size a < like_size rhs"
  then show "assign conv rhs self =
        Throws (Runtime_error
          (cat [Str ''size '', Num (like_size rhs), Str '' exceeds maximum capacity '',
                Num (max_size a)])) self"
    by (simp add: assign_def array_reset_def)
qed

theorem assign_resets_then_copies_witness:
  "(\<exists>s'. assign (\<lambda>u. u)
            (as_like (Map_storage \<lparr>map_entries = [0 \<mapsto> 4, 2 \<mapsto> 9 :: int], map_size = 3\<rparr>))
            (Array_storage \<lparr>array_buf = [5, 6, 7, 8], array_size = 1\<rparr>) = Returns s' \<and>
          storage_size s' = 3 \<and>
          storage_at s' 0 = 4 \<and> storage_at s' 1 = 0 \<and> storage_at s' 2 = 9) \<and>
   assign (\<lambda>u. u) (as_like (Vector_storage [1, 2, 3, 4, 5 :: int]))
     (Array_storage \<lparr>array_buf = [5, 6, 7, 8], array_size = 1\<rparr>) =
   Throws (Runtime_error ''size 5 exceeds maximum capacity 4'')
     (Array_storage \<lparr>array_buf = [5, 6, 7, 8], array_size = 1\<rparr>)"
proof -
  let ?self = "Array_storage \<lparr>array_buf = [5, 6, 7, 8 :: int], array_size = 1\<rparr>"
  let ?m = "as_like (Map_storage \<lparr>map_entries = [0 \<mapsto> 4, 2 \<mapsto> 9 :: int], map_size = 3\<rparr>)"
  let ?v = "as_like (Vector_storage [1, 2, 3, 4, 5 :: int])"
  let ?id = "\<lambda>u :: int. u"
  have sm: "like_size ?m = 3" and sv: "like_size ?v = 5"
    by (simp_all add: as_like_def)
  have h: "\<forall>a. ?self = Array_storage a \<longrightarrow> like_size ?m \<le> max_size a"
    by (auto simp: sm max_size_def)
  have k: "?id 0 = 0" by simp
  from assign_resets_then_copies [where self = ?self and rhs = ?m and conv = ?id,
      THEN conjunct1, THEN mp, OF h]
  obtain s' where
    a: "assign ?id ?m ?self = Returns s'" and n: "storage_size s' = like_size ?m" and
    c: "?id 0 = 0 \<longrightarrow> (\<forall>i<like_size ?m. storage_at s' i = ?id (like_at ?m i))"
    by blast
  from c k have "\<forall>i<3. storage_at s' i = like_at ?m i" unfolding sm by blast
  then have "storage_at s' 0 = like_at ?m 0" "storage_at s' 1 = like_at ?m 1"
    "storage_at s' 2 = like_at ?m 2"
    by simp_all
  then have "storage_at s' 0 = 4" "storage_at s' 1 = 0" "storage_at s' 2 = 9"
    by (simp_all add: as_like_def map_at_def)
  with a n sm have first: "\<exists>s'. assign ?id ?m ?self = Returns s' \<and> storage_size s' = 3 \<and>
          storage_at s' 0 = 4 \<and> storage_at s' 1 = 0 \<and> storage_at s' 2 = 9"
    by auto
  have msg: "cat [Str ''size '', Num 5, Str '' exceeds maximum capacity '', Num 4]
             = ''size 5 exceeds maximum capacity 4''"
    by (simp add: cat.simps show_nat.simps digit_def)
  have "?self = Array_storage \<lparr>array_buf = [5, 6, 7, 8], array_size = 1\<rparr> \<and>
        max_size \<lparr>array_buf = [5, 6, 7, 8 :: int], array_size = 1\<rparr> < like_size ?v"
    by (simp add: sv max_size_def)
  with assign_resets_then_copies [where self = ?self and rhs = ?v and conv = ?id,
      THEN conjunct2]
  have "assign ?id ?v ?self =
        Throws (Runtime_error
          (cat [Str ''size '', Num (like_size ?v), Str '' exceeds maximum capacity '',
                Num (max_size \<lparr>array_buf = [5, 6, 7, 8 :: int], array_size = 1\<rparr>)])) ?self"
    by blast
  moreover have "max_size \<lparr>array_buf = [5, 6, 7, 8 :: int], array_size = 1\<rparr> = 4"
    by (simp add: max_size_def)
  ultimately have second: "assign ?id ?v ?self =
      Throws (Runtime_error ''size 5 exceeds maximum capacity 4'') ?self"
    by (simp only: sv msg)
  from first second show ?thesis by blast
qed

section \<open>Equality with a storage-like object\<close>

lemma equals_loop_iff:
  "equals_loop s u i n \<longleftrightarrow> (\<forall>j. i \<le> j \<and> j < n \<longrightarrow> storage_at s j = like_at u j)"
proof (induction s u i n rule: equals_loop.induct)
  case (1 s u i n)
  show ?case
  proof (cases "i < n")
    case True
    show ?thesis
    proof (cases "storage_at s i = like_at u i")
      case eq: True
      have "equals_loop s u i n = equals_loop s u (Suc i) n"
        using True eq by (simp add: equals_loop.simps [of s u i n])
      also have "\<dots> \<longleftrightarrow> (\<forall>j. Suc i \<le> j \<and> j < n \<longrightarrow> storage_at s j = like_at u j)"
        using "1.IH" True eq by simp
      also have "\<dots> \<longleftrightarrow> (\<forall>j. i \<le> j \<and> j < n \<longrightarrow> storage_at s j = like_at u j)"
        using eq by (metis Suc_leI le_neq_implies_less Suc_leD)
      finally show ?thesis .
    next
      case ne: False
      have "\<not> equals_loop s u i n"
        using True ne by (simp add: equals_loop.simps [of s u i n])
      moreover have "\<not> (\<forall>j. i \<le> j \<and> j < n \<longrightarrow> storage_at s j = like_at u j)"
        using True ne by auto
      ultimately show ?thesis by simp
    qed
  next
    case False
    then show ?thesis by (auto simp add: equals_loop.simps [of s u i n])
  qed
qed

text \<open>
  C5. For a storage \<open>a\<close> of any backend and a storage-like \<open>b\<close> (another storage of any
  backend seen through \<open>as_like\<close>, or anything with a size and an indexed read),
  \<open>a == b\<close> is false when the sizes differ, and otherwise true exactly when
  \<open>a[i] = b[i]\<close> for every index below the size.
\<close>

theorem equals_iff:
  "(storage_size a \<noteq> like_size b \<longrightarrow> \<not> equals a b) \<and>
   (storage_size a = like_size b \<longrightarrow>
      (equals a b \<longleftrightarrow> (\<forall>i < storage_size a. storage_at a i = like_at b i)))"
  by (simp add: equals_def Let_def equals_loop_iff)

theorem equals_iff_witness:
  "equals (Vector_storage [4, 0, 9 :: int])
     (as_like (Map_storage \<lparr>map_entries = [0 \<mapsto> 4, 2 \<mapsto> 9], map_size = 3\<rparr>)) \<and>
   \<not> equals (Vector_storage [4, 0, 9 :: int]) (as_like (Vector_storage [4, 0])) \<and>
   \<not> equals (Vector_storage [4, 0, 9 :: int])
       (as_like (Array_storage \<lparr>array_buf = [4, 1, 9, 7], array_size = 3\<rparr>))"
proof -
  let ?a = "Vector_storage [4, 0, 9 :: int]"
  let ?m = "as_like (Map_storage \<lparr>map_entries = [0 \<mapsto> 4, 2 \<mapsto> 9 :: int], map_size = 3\<rparr>)"
  let ?v = "as_like (Vector_storage [4, 0 :: int])"
  let ?r = "as_like (Array_storage \<lparr>array_buf = [4, 1, 9, 7 :: int], array_size = 3\<rparr>)"
  have sm: "storage_size ?a = like_size ?m" by (simp add: as_like_def)
  have "\<forall>i < storage_size ?a. storage_at ?a i = like_at ?m i"
  proof (intro allI impI)
    fix i assume "i < storage_size ?a"
    then have "i = 0 \<or> i = 1 \<or> i = 2" by auto
    then show "storage_at ?a i = like_at ?m i"
      by (auto simp: as_like_def map_at_def)
  qed
  with equals_iff [of ?a ?m] sm have one: "equals ?a ?m" by blast
  have "storage_size ?a \<noteq> like_size ?v" by (simp add: as_like_def)
  with equals_iff [of ?a ?v] have two: "\<not> equals ?a ?v" by blast
  have sr: "storage_size ?a = like_size ?r" by (simp add: as_like_def)
  have "1 < storage_size ?a \<and> storage_at ?a 1 \<noteq> like_at ?r 1"
    by (simp add: as_like_def)
  then have "\<not> (\<forall>i < storage_size ?a. storage_at ?a i = like_at ?r i)" by blast
  with equals_iff [of ?a ?r] sr have three: "\<not> equals ?a ?r" by blast
  from one two three show ?thesis by blast
qed

section \<open>Unit and weighted increments\<close>

lemma modify_modify:
  "storage_modify i f (storage_modify i g s) = storage_modify i (\<lambda>t. f (g t)) s"
proof (cases s)
  case (Vector_storage v)
  then show ?thesis by (cases "i < length v") (simp_all add: list_update_beyond)
next
  case (Array_storage a)
  then show ?thesis by (cases "i < length (array_buf a)") (simp_all add: list_update_beyond)
next
  case (Map_storage m)
  then show ?thesis by simp
qed

lemma modify_size: "storage_size (storage_modify i f s) = storage_size s"
  by (cases s) simp_all

lemma increment_times_eq:
  "i < storage_size s \<Longrightarrow>
   increment_times E k i s = Returns (storage_modify i ((element_adaptor_inc E) ^^ k) s)"
proof (induction k arbitrary: s)
  case 0
  show ?case by (cases s) simp_all
next
  case (Suc k)
  let ?s = "storage_modify i (element_adaptor_inc E) s"
  from Suc.prems have "i < storage_size ?s" by (simp add: modify_size)
  from Suc.IH [OF this] Suc.prems show ?case
    by (simp add: increment_def modify_modify funpow_swap1)
qed

lemma numeric_inc_funpow:
  "(element_adaptor_inc numeric ^^ k) = (\<lambda>t. element_adaptor_add numeric t (of_nat k))"
  by (induction k) (auto simp: numeric_def fun_eq_iff ac_simps)

text \<open>
  C6. For a storage of Plain numeric elements whose \<open>++\<close> and \<open>+=\<close> are exact or
  wrap-around arithmetic (the integer types) and an index \<open>i\<close> below its size, \<open>k\<close> unit
  increments at \<open>i\<close> and one weighted increment \<open>add(i, k)\<close> both return, and leave the
  same element value at \<open>i\<close>.
\<close>

theorem increments_equal_add:
  assumes "i < storage_size s"
  shows "\<exists>s1 s2. increment_times numeric k i s = Returns s1 \<and>
           add numeric i (of_nat k) s = Returns s2 \<and>
           storage_at s1 i = storage_at s2 i"
  using assms by (simp add: increment_times_eq add_def numeric_inc_funpow)

theorem increments_equal_add_witness:
  "\<exists>s1. increment_times numeric 3 1 (Vector_storage [4, 0, 9 :: int]) = Returns s1 \<and>
      add numeric 1 3 (Vector_storage [4, 0, 9 :: int]) = Returns (Vector_storage [4, 3, 9]) \<and>
      storage_at s1 1 = 3"
proof -
  let ?s = "Vector_storage [4, 0, 9 :: int]"
  have h: "1 < storage_size ?s" by simp
  have a: "add numeric 1 3 ?s = Returns (Vector_storage [4, 3, 9])"
    by (simp add: add_def numeric_def)
  from increments_equal_add [OF h, of 3] obtain s1 s2 where
    "increment_times numeric 3 1 ?s = Returns s1" and
    "add numeric 1 (of_nat 3) ?s = Returns s2" and "storage_at s1 1 = storage_at s2 1"
    by blast
  with a show ?thesis by auto
qed

text \<open>
  C6, for every Plain numeric element, fails: a \<^verbatim>\<open>float\<close> element is Plain and numeric
  too, and its sums round: at the element value
  \<open>2^24 = 16777216\<close> each unit increment rounds back to \<open>16777216\<close>, while \<open>add(i, 2)\<close>
  gives \<open>16777218\<close>.
\<close>

theorem float_increments_differ_from_add:
  "increment_times float_element (Suc (Suc 0)) 0 (Vector_storage [16777216]) =
     Returns (Vector_storage [16777216]) \<and>
   add float_element 0 2 (Vector_storage [16777216]) = Returns (Vector_storage [16777218]) \<and>
   storage_at (Vector_storage [16777216 :: nat]) 0 \<noteq> storage_at (Vector_storage [16777218]) 0"
proof -
  have "excess_bits 8388608 = 0" "excess_bits 8388609 = 0"
    by (simp_all add: excess_bits.simps [of 8388608] excess_bits.simps [of 8388609])
  then have e: "excess_bits 16777217 = 1" "excess_bits 16777218 = 1"
    by (simp_all add: excess_bits.simps [of 16777217] excess_bits.simps [of 16777218])
  have r: "round_float 16777217 = 16777216" "round_float 16777218 = 16777218"
    by (simp_all add: round_float_def e)
  show ?thesis
    by (simp add: increment_def add_def float_element_def r)
qed

section \<open>Default entries of the sparse map\<close>

lemma map_set_entries:
  "map_entries (map_set conv i u m) =
     (if u = 0 then (map_entries m)(i := None) else (map_entries m)(i \<mapsto> conv u))"
  by (auto simp: map_set_def Let_def fun_eq_iff)

lemma set_defaults_within:
  "\<forall>u. u \<noteq> 0 \<longrightarrow> conv u \<noteq> 0 \<Longrightarrow> defaults_within Z s \<Longrightarrow>
   defaults_within Z (storage_set conv i u s)"
  by (cases s) (auto simp: map_set_entries split: if_splits)

lemma assign_loop_defaults_within:
  "\<forall>u. u \<noteq> 0 \<longrightarrow> conv u \<noteq> 0 \<Longrightarrow> defaults_within Z s \<Longrightarrow>
   defaults_within Z (assign_loop conv rhs i n s)"
proof (induction conv rhs i n s rule: assign_loop.induct)
  case (1 conv rhs i n s)
  then show ?case
    by (cases "i < n")
      (simp_all add: assign_loop.simps [of conv rhs i n s] set_defaults_within)
qed

lemma plus_loop_sparse: "plus_loop E u i n (Map_storage m) = Map_storage m"
proof (induction E u i n "Map_storage m" rule: plus_loop.induct)
  case (1 E u i n)
  then show ?case
    by (cases "i < n") (simp_all add: plus_loop.simps [of E u i n "Map_storage m"])
qed

lemma times_loop_sparse: "times_loop mul x i n (Map_storage m) = Map_storage m"
proof (induction mul x i n "Map_storage m" rule: times_loop.induct)
  case (1 mul x i n)
  then show ?case
    by (cases "i < n") (simp_all add: times_loop.simps [of mul x i n "Map_storage m"])
qed

lemma apply_operation_defaults_within:
  assumes "\<forall>u. u \<noteq> 0 \<longrightarrow> conv u \<noteq> 0"
    and "defaults_within Z s" and "apply_operation E mul conv op s = Returns s'"
  shows "defaults_within Z s'"
proof -
  from assms(2) obtain m where s: "s = Map_storage m"
    by (cases s) simp_all
  show ?thesis
  proof (cases op)
    case (Op_reset n)
    with assms(3) s show ?thesis by (auto simp: map_reset_def)
  next
    case (Op_set i u)
    with assms(3) set_defaults_within [OF assms(1) assms(2)] show ?thesis by auto
  next
    case (Op_increment i)
    with assms s show ?thesis by (auto simp: increment_def split: if_splits)
  next
    case (Op_add i u)
    with assms s show ?thesis by (auto simp: add_def split: if_splits)
  next
    case (Op_plus_assign u)
    with assms s show ?thesis
      by (auto simp: plus_assign_def Let_def plus_loop_sparse split: if_splits)
  next
    case (Op_times_assign x)
    with assms s show ?thesis by (auto simp: times_assign_def times_loop_sparse)
  next
    case (Op_divide_assign x)
    with assms s show ?thesis
      by (auto simp: divide_assign_def times_assign_def times_loop_sparse)
  next
    case (Op_assign rhs)
    have "defaults_within Z (Map_storage (map_reset (like_size rhs) m))"
      by (simp add: map_reset_def)
    from assign_loop_defaults_within [OF assms(1) this] Op_assign assms(3) s show ?thesis
      by (auto simp: assign_def)
  qed
qed

lemma run_defaults_within:
  "\<forall>u. u \<noteq> 0 \<longrightarrow> conv u \<noteq> 0 \<Longrightarrow> defaults_within Z s \<Longrightarrow>
   run E mul conv ops s = Returns s' \<Longrightarrow> defaults_within Z s'"
proof (induction ops arbitrary: s)
  case Nil
  then show ?case by simp
next
  case (Cons op ops)
  then show ?case
    by (auto split: outcome.splits dest: apply_operation_defaults_within)
qed

text \<open>
  When the values given to \<open>set\<close> and to assignment convert to the default element only
  if they compare equal to it (so when they are of the element type itself), a sequence
  of the operations on a sparse map storage materialises no entry equal to the default
  value; an index without an entry reads as the default value, and setting an index to
  the default value removes its entry.
\<close>

lemma no_default_entry_created:
  assumes "\<forall>u. u \<noteq> 0 \<longrightarrow> conv u \<noteq> 0"
  shows "(\<forall>s'. run E mul conv ops (Map_storage m) = Returns s' \<longrightarrow>
      (\<exists>m'. s' = Map_storage m' \<and>
         (\<forall>i. map_entries m' i = Some 0 \<longrightarrow> map_entries m i = Some 0) \<and>
         (0 \<notin> ran (map_entries m) \<longrightarrow> 0 \<notin> ran (map_entries m')))) \<and>
   (map_entries m i = None \<longrightarrow> storage_at (Map_storage m) i = 0) \<and>
   map_entries (map_set conv i 0 m) = (map_entries m)(i := None)"
proof (intro conjI impI allI)
  fix s'
  assume r: "run E mul conv ops (Map_storage m) = Returns s'"
  have "defaults_within {i. map_entries m i = Some 0} (Map_storage m)" by simp
  from run_defaults_within [OF assms this r] obtain m' where
    s': "s' = Map_storage m'" and
    z: "\<forall>i. map_entries m' i = Some 0 \<longrightarrow> map_entries m i = Some 0"
    by (cases s') simp_all
  from z have "0 \<notin> ran (map_entries m) \<longrightarrow> 0 \<notin> ran (map_entries m')"
    by (auto simp: ran_def)
  with s' z show "\<exists>m'. s' = Map_storage m' \<and>
         (\<forall>i. map_entries m' i = Some 0 \<longrightarrow> map_entries m i = Some 0) \<and>
         (0 \<notin> ran (map_entries m) \<longrightarrow> 0 \<notin> ran (map_entries m'))"
    by blast
next
  assume "map_entries m i = None"
  then show "storage_at (Map_storage m) i = 0" by (simp add: map_at_def)
next
  show "map_entries (map_set conv i 0 m) = (map_entries m)(i := None)"
    by (simp add: map_set_entries)
qed

lemma truncate_half: "truncate (1 / 2) = 0"
proof -
  have "\<lfloor>1 / 2 :: rat\<rfloor> = 0" by (rule floor_unique) simp_all
  then show ?thesis by (simp add: truncate_def)
qed

text \<open>
  C3. A sparse map storage is to hold no materialised entry equal to the default value
  after any sequence of the public operations. \<open>set\<close> tests the value it is given against
  the default before the conversion to the element type and stores it after: on a
  sparse map of \<^verbatim>\<open>int\<close> elements, reset to size 3, \<open>set(1, 0.5)\<close> materialises the
  entry \<open>1 \<mapsto> 0\<close>, and assigning the storage that holds the one \<^verbatim>\<open>double\<close> \<open>0.5\<close>
  materialises \<open>0 \<mapsto> 0\<close>.
\<close>

theorem set_materialises_default:
  "storage_reset 3 (Map_storage \<lparr>map_entries = Map.empty, map_size = 0\<rparr>) =
     Returns (Map_storage \<lparr>map_entries = Map.empty :: nat \<rightharpoonup> int, map_size = 3\<rparr>) \<and>
   storage_set truncate 1 (1 / 2) (Map_storage \<lparr>map_entries = Map.empty, map_size = 3\<rparr>) =
     Map_storage \<lparr>map_entries = [1 \<mapsto> 0], map_size = 3\<rparr> \<and>
   assign truncate (as_like (Vector_storage [1 / 2]))
       (Map_storage \<lparr>map_entries = Map.empty, map_size = 0\<rparr>) =
     Returns (Map_storage \<lparr>map_entries = [0 \<mapsto> 0], map_size = 1\<rparr>) \<and>
   0 \<in> ran [1 \<mapsto> 0 :: int]"
  by (simp add: map_reset_def map_set_def truncate_half assign_def as_like_def
      assign_loop.simps [of _ _ 0] assign_loop.simps [of _ _ "Suc 0"])

section \<open>Scaling\<close>

lemma modify_addressable: "addressable (storage_modify i f s) j = addressable s j"
  by (cases s) (simp_all add: max_size_def)

lemma modify_dense: "dense (storage_modify i f s) = dense s"
  by (cases s) simp_all

lemma modify_at:
  "dense s \<Longrightarrow> addressable s i \<Longrightarrow>
   storage_at (storage_modify i f s) j = (if j = i then f (storage_at s i) else storage_at s j)"
  by (cases s) (simp_all add: max_size_def)

lemma modify_well_formed: "well_formed (storage_modify i f s) = well_formed s"
  by (cases s) (simp_all add: max_size_def)

lemma well_formed_addressable:
  "well_formed s \<Longrightarrow> i < storage_size s \<Longrightarrow> addressable s i"
  by (cases s) simp_all

lemma times_loop_size: "storage_size (times_loop mul x i n s) = storage_size s"
proof (induction mul x i n s rule: times_loop.induct)
  case (1 mul x i n s)
  then show ?case
    by (cases "i < n") (simp_all add: times_loop.simps [of mul x i n s] modify_size)
qed

lemma times_loop_at:
  "dense s \<Longrightarrow> (\<forall>j<n. addressable s j) \<Longrightarrow>
   storage_at (times_loop mul x i n s) j =
     (if i \<le> j \<and> j < n then mul (storage_at s j) x else storage_at s j)"
proof (induction mul x i n s rule: times_loop.induct)
  case (1 mul x i n s)
  show ?case
  proof (cases "i < n")
    case True
    let ?s = "storage_modify i (\<lambda>t. mul t x) s"
    from "1.prems" have d: "dense ?s" and a: "\<forall>j<n. addressable ?s j"
      by (simp_all add: modify_dense modify_addressable)
    from "1.prems" True have b: "addressable s i" by simp
    have "storage_at (times_loop mul x i n s) j = storage_at (times_loop mul x (Suc i) n ?s) j"
      using True by (simp add: times_loop.simps [of mul x i n s])
    also have "\<dots> = (if Suc i \<le> j \<and> j < n then mul (storage_at ?s j) x else storage_at ?s j)"
      using "1.IH" [OF True d a] .
    also have "\<dots> = (if i \<le> j \<and> j < n then mul (storage_at s j) x else storage_at s j)"
      using True b "1.prems"(1) by (auto simp: modify_at)
    finally show ?thesis .
  next
    case False
    then show ?thesis by (auto simp add: times_loop.simps [of mul x i n s])
  qed
qed

lemma times_assign_dense:
  assumes "dense s" and "well_formed s"
  shows "storage_size (times_assign mul x s) = storage_size s \<and>
         (\<forall>i < storage_size s. storage_at (times_assign mul x s) i = mul (storage_at s i) x)"
  using assms
  by (simp add: times_assign_def times_loop_size times_loop_at well_formed_addressable)

lemma divide_assign_times_assign: "divide_assign mul x s = times_assign mul (1 / x) s"
  by (simp add: divide_assign_def)

text \<open>
  C7. \<open>*= x\<close> is to replace every element \<open>a\<^sub>i\<close> by \<open>a\<^sub>i *= x\<close> and keep the size, and
  \<open>/= x\<close> is \<open>*= (1 / x)\<close>. The two dense backends do so (\<open>times_assign_dense\<close>,
  \<open>divide_assign_times_assign\<close>). On a sparse map storage the loop of \<^verbatim>\<open>operator*=\<close>
  multiplies the temporary that \<^verbatim>\<open>map_augmentation::operator[]\<close> returns: the storage of
  size 1 with the entry \<open>0 \<mapsto> 2\<close>, scaled by 3, is as before and reads 2 at index 0.
\<close>

theorem times_assign_sparse_map:
  "times_assign (\<lambda>t x. t * x) (3 :: int) (Map_storage \<lparr>map_entries = [0 \<mapsto> 2 :: int], map_size = 1\<rparr>)
     = Map_storage \<lparr>map_entries = [0 \<mapsto> 2], map_size = 1\<rparr> \<and>
   storage_at (times_assign (\<lambda>t x. t * x) (3 :: int)
     (Map_storage \<lparr>map_entries = [0 \<mapsto> 2 :: int], map_size = 1\<rparr>)) 0 = 2"
  by (simp add: times_assign_def times_loop_sparse map_at_def)

section \<open>Elementwise addition\<close>

lemma plus_loop_size: "storage_size (plus_loop E u i n s) = storage_size s"
proof (induction E u i n s rule: plus_loop.induct)
  case (1 E u i n s)
  then show ?case
    by (cases "i < n") (simp_all add: plus_loop.simps [of E u i n s] modify_size)
qed

lemma plus_loop_at:
  "dense s \<Longrightarrow> (\<forall>j<n. addressable s j) \<Longrightarrow>
   storage_at (plus_loop E u i n s) j =
     (if i \<le> j \<and> j < n then element_adaptor_add E (storage_at s j) (like_at u j)
      else storage_at s j)"
proof (induction E u i n s rule: plus_loop.induct)
  case (1 E u i n s)
  show ?case
  proof (cases "i < n")
    case True
    let ?s = "storage_modify i (\<lambda>t. element_adaptor_add E t (like_at u i)) s"
    from "1.prems" have d: "dense ?s" and a: "\<forall>j<n. addressable ?s j"
      by (simp_all add: modify_dense modify_addressable)
    from "1.prems" True have b: "addressable s i" by simp
    have "storage_at (plus_loop E u i n s) j = storage_at (plus_loop E u (Suc i) n ?s) j"
      using True by (simp add: plus_loop.simps [of E u i n s])
    also have "\<dots> = (if Suc i \<le> j \<and> j < n
        then element_adaptor_add E (storage_at ?s j) (like_at u j) else storage_at ?s j)"
      using "1.IH" [OF True d a] .
    also have "\<dots> = (if i \<le> j \<and> j < n
        then element_adaptor_add E (storage_at s j) (like_at u j) else storage_at s j)"
      using True b "1.prems"(1) by (auto simp: modify_at)
    finally show ?thesis .
  next
    case False
    then show ?thesis by (auto simp add: plus_loop.simps [of E u i n s])
  qed
qed

lemma plus_assign_dense:
  assumes "dense a" and "well_formed a" and "storage_size a = like_size b"
  shows "\<exists>a'. plus_assign E b a = Returns a' \<and> storage_size a' = storage_size a \<and>
           (\<forall>i < storage_size a.
              storage_at a' i = element_adaptor_add E (storage_at a i) (like_at b i))"
  using assms
  by (simp add: plus_assign_def Let_def plus_loop_size plus_loop_at well_formed_addressable)

text \<open>
  C8. \<open>a += b\<close> for storages of equal size is to add \<open>b[i]\<close> into \<open>a[i]\<close> by the weighted
  increment of the element strategy, for every index, and keep the size. The two dense
  backends do so (\<open>plus_assign_dense\<close>). When \<open>a\<close> is a sparse map storage the weighted
  increment acts on the temporary that \<^verbatim>\<open>map_augmentation::operator[]\<close> returns: the
  storage of size 1 with the entry \<open>0 \<mapsto> 2\<close>, after \<open>+=\<close> of a storage holding 5, is as
  before and reads 2 at index 0.
\<close>

theorem plus_assign_sparse_map:
  "plus_assign numeric (as_like (Vector_storage [5 :: int]))
     (Map_storage \<lparr>map_entries = [0 \<mapsto> 2 :: int], map_size = 1\<rparr>)
     = Returns (Map_storage \<lparr>map_entries = [0 \<mapsto> 2], map_size = 1\<rparr>) \<and>
   storage_at (Map_storage \<lparr>map_entries = [0 \<mapsto> 2 :: int], map_size = 1\<rparr>) 0 = 2"
  by (simp add: plus_assign_def plus_loop_sparse map_at_def as_like_def)

section \<open>The bin interval view\<close>

lemma sint_succ:
  fixes idx :: "32 word"
  assumes "sint idx < 2147483647"
  shows "sint (idx + 1) = sint idx + 1"
proof -
  have lo: "- (2 ^ 31) \<le> sint idx" using sint_ge [of idx] by simp
  have "sint (idx + 1) = signed_take_bit 31 (sint idx + 1)"
    by (simp add: sint_word_ariths)
  also have "\<dots> = sint idx + 1"
    using lo assms by (intro signed_take_bit_int_eq_self) simp_all
  finally show ?thesis .
qed

text \<open>
  C10. The accessors of the view of bin \<open>idx\<close> of an axis are values of the axis's
  \<^verbatim>\<open>value\<close> and nothing else: \<open>lower\<close> is the value at \<open>idx\<close>, \<open>upper\<close> the value at
  \<open>idx + 1\<close> (the \<^verbatim>\<open>int\<close> sum; the integer \<open>idx + 1\<close> below the largest \<^verbatim>\<open>int\<close>),
  \<open>center\<close> the value at \<open>idx + 0.5\<close>, and \<open>width\<close> the difference of \<open>upper\<close> and
  \<open>lower\<close>.
\<close>

theorem interval_view_accessors:
  fixes ax :: "'v::minus axis" and idx :: "32 word"
  shows "lower \<lparr>view_axis = ax, view_idx = idx\<rparr> = axis_value ax (real_of_int (sint idx)) \<and>
     upper \<lparr>view_axis = ax, view_idx = idx\<rparr> = axis_value ax (real_of_int (sint (idx + 1))) \<and>
     center \<lparr>view_axis = ax, view_idx = idx\<rparr> = axis_value ax (real_of_int (sint idx) + 0.5) \<and>
     width \<lparr>view_axis = ax, view_idx = idx\<rparr> =
       upper \<lparr>view_axis = ax, view_idx = idx\<rparr> - lower \<lparr>view_axis = ax, view_idx = idx\<rparr> \<and>
     width \<lparr>view_axis = ax, view_idx = idx\<rparr> =
       axis_value ax (real_of_int (sint (idx + 1))) - axis_value ax (real_of_int (sint idx)) \<and>
     (sint idx < 2147483647 \<longrightarrow>
        upper \<lparr>view_axis = ax, view_idx = idx\<rparr> = axis_value ax (real_of_int (sint idx) + 1))"
  by (simp add: lower_def upper_def center_def width_def sint_succ)

theorem interval_view_accessors_witness:
  "lower \<lparr>view_axis = \<lparr>axis_value = (\<lambda>x. 2 * x + 1)\<rparr>, view_idx = 3\<rparr> = (7::real) \<and>
   upper \<lparr>view_axis = \<lparr>axis_value = (\<lambda>x. 2 * x + 1)\<rparr>, view_idx = 3\<rparr> = (9::real) \<and>
   center \<lparr>view_axis = \<lparr>axis_value = (\<lambda>x. 2 * x + 1)\<rparr>, view_idx = 3\<rparr> = (8::real) \<and>
   width \<lparr>view_axis = \<lparr>axis_value = (\<lambda>x. 2 * x + 1)\<rparr>, view_idx = 3\<rparr> = (2::real)"
  using interval_view_accessors [of "\<lparr>axis_value = (\<lambda>x. 2 * x + 1)\<rparr>" 3]
  by simp

end
